theory Spec2Isabelle
  imports Main "HOL-Library.Word"
begin

section \<open>JavaScript values used by mcp-cache\<close>

text \<open>
  A JavaScript string is a sequence of UTF-16 code units, and \<open>s.length\<close> counts code
  units. String literals of the source are written with \<open>ustr\<close>.
\<close>

type_synonym jstring = "16 word list"

definition ustr :: "string \<Rightarrow> jstring" where
  "ustr s = map of_char s"

text \<open>
  \<open>Array.prototype.slice(start, end)\<close> and \<open>String.prototype.slice(start, end)\<close> on
  integer arguments: a negative index counts from the end, both indices are clamped to
  the length, and an empty range gives the empty sequence.
\<close>

definition js_slice :: "'a list \<Rightarrow> int \<Rightarrow> int \<Rightarrow> 'a list" where
  "js_slice xs start end' =
     (let n = int (length xs);
          k = (if start < 0 then max (n + start) 0 else min start n);
          final = (if end' < 0 then max (n + end') 0 else min end' n)
      in take (nat (final - k)) (drop (nat k) xs))"

text \<open>A thrown JavaScript exception, with its message.\<close>

datatype js_error = TypeError jstring | Error jstring

definition startsWith :: "jstring \<Rightarrow> jstring \<Rightarrow> bool" where
  "startsWith s p = (take (length p) s = p)"

definition endsWith :: "jstring \<Rightarrow> jstring \<Rightarrow> bool" where
  "endsWith s p = (length p \<le> length s \<and> drop (length s - length p) s = p)"

section \<open>JSON values and their serialization\<close>

text \<open>
  The values that travel through the proxy are the results of \<open>JSON.parse\<close>: null,
  booleans, numbers, strings, arrays and objects with their keys in insertion order.
  Numbers are restricted to integers; fractions and exponents are not modelled.
\<close>

datatype json =
    JNull
  | JBool bool
  | JNum int
  | JStr jstring
  | JArr "json list"
  | JObj "(jstring \<times> json) list"

definition digit_char :: "nat \<Rightarrow> 16 word" where
  "digit_char d = (if d < 10 then of_nat (48 + d) else of_nat (87 + d))"

fun show_nat :: "nat \<Rightarrow> jstring" where
  "show_nat n = (if n < 10 then [digit_char n] else show_nat (n div 10) @ [digit_char (n mod 10)])"

declare show_nat.simps [simp del]

text \<open>\<open>String(n)\<close> for an integer \<open>n\<close>.\<close>

definition show_int :: "int \<Rightarrow> jstring" where
  "show_int i = (if i < 0 then ustr ''-'' @ show_nat (nat (- i)) else show_nat (nat i))"

text \<open>The four lower-case hexadecimal digits of a code unit.\<close>

definition hex4 :: "16 word \<Rightarrow> jstring" where
  "hex4 c = (let n = unat c
             in [digit_char (n div 4096), digit_char (n div 256 mod 16),
                 digit_char (n div 16 mod 16), digit_char (n mod 16)])"

definition high_surrogate :: "16 word \<Rightarrow> bool" where
  "high_surrogate c = (0xD800 \<le> c \<and> c \<le> 0xDBFF)"

definition low_surrogate :: "16 word \<Rightarrow> bool" where
  "low_surrogate c = (0xDC00 \<le> c \<and> c \<le> 0xDFFF)"

text \<open>
  The body of \<open>QuoteJSONString\<close>: a backslash (\<open>0x5C\<close>) and a letter for backspace,
  tab, line feed, form feed and carriage return; a backslash before a double quote and
  before a backslash; backslash, \<open>u\<close> and four hexadecimal digits for the other control
  characters and for a surrogate without its partner; everything else as it is.
\<close>

definition escape_unit :: "16 word \<Rightarrow> jstring" where
  "escape_unit c =
     (if c = 0x08 then [0x5C, of_char CHR ''b'']
      else if c = 0x09 then [0x5C, of_char CHR ''t'']
      else if c = 0x0A then [0x5C, of_char CHR ''n'']
      else if c = 0x0C then [0x5C, of_char CHR ''f'']
      else if c = 0x0D then [0x5C, of_char CHR ''r'']
      else if c = 0x22 then [0x5C, 0x22]
      else if c = 0x5C then [0x5C, 0x5C]
      else if c < 0x20 \<or> high_surrogate c \<or> low_surrogate c then [0x5C, of_char CHR ''u''] @ hex4 c
      else [c])"

fun escape_units :: "jstring \<Rightarrow> jstring" where
  "escape_units [] = []"
| "escape_units [c] = escape_unit c"
| "escape_units (c # d # cs) =
     (if high_surrogate c \<and> low_surrogate d then c # d # escape_units cs
      else escape_unit c @ escape_units (d # cs))"

definition quote :: "jstring \<Rightarrow> jstring" where
  "quote s = [0x22] @ escape_units s @ [0x22]"

text \<open>
  \<open>JSON.stringify(value, null, gap)\<close> for \<open>gap\<close> spaces of indentation; \<open>gap = 0\<close> is
  \<open>JSON.stringify(value)\<close>. The second argument of \<open>serialize\<close> is the current
  indentation.
\<close>

definition line_break :: "nat \<Rightarrow> nat \<Rightarrow> jstring" where
  "line_break gap indent = (if gap = 0 then [] else 0x0A # replicate indent 0x20)"

fun serialize :: "nat \<Rightarrow> nat \<Rightarrow> json \<Rightarrow> jstring"
  and serialize_elements :: "nat \<Rightarrow> nat \<Rightarrow> json list \<Rightarrow> jstring"
  and serialize_members :: "nat \<Rightarrow> nat \<Rightarrow> (jstring \<times> json) list \<Rightarrow> jstring"
where
  "serialize gap indent JNull = ustr ''null''"
| "serialize gap indent (JBool b) = (if b then ustr ''true'' else ustr ''false'')"
| "serialize gap indent (JNum n) = show_int n"
| "serialize gap indent (JStr s) = quote s"
| "serialize gap indent (JArr xs) =
     (if xs = [] then ustr ''[]''
      else ustr ''['' @ line_break gap (indent + gap) @ serialize_elements gap (indent + gap) xs
           @ line_break gap indent @ ustr '']'')"
| "serialize gap indent (JObj ms) =
     (if ms = [] then ustr ''{}''
      else ustr ''{'' @ line_break gap (indent + gap) @ serialize_members gap (indent + gap) ms
           @ line_break gap indent @ ustr ''}'')"
| "serialize_elements gap indent [] = []"
| "serialize_elements gap indent (x # xs) =
     serialize gap indent x
     @ (if xs = [] then [] else ustr '','' @ line_break gap indent @ serialize_elements gap indent xs)"
| "serialize_members gap indent [] = []"
| "serialize_members gap indent ((k, v) # ms) =
     quote k @ (if gap = 0 then ustr '':'' else ustr '': '') @ serialize gap indent v
     @ (if ms = [] then [] else ustr '','' @ line_break gap indent @ serialize_members gap indent ms)"

definition JSON_stringify :: "json \<Rightarrow> jstring" where
  "JSON_stringify v = serialize 0 0 v"

definition JSON_stringify_pretty :: "json \<Rightarrow> jstring" where
  "JSON_stringify_pretty v = serialize 2 0 v"

text \<open>
  \<open>Buffer.byteLength(s, 'utf8')\<close>: one to three bytes for a code unit, four for a
  surrogate pair, three (the replacement character) for a surrogate without its partner.
\<close>

fun byteLength :: "jstring \<Rightarrow> nat" where
  "byteLength [] = 0"
| "byteLength [c] = (if c < 0x80 then 1 else if c < 0x800 then 2 else 3)"
| "byteLength (c # d # cs) =
     (if high_surrogate c \<and> low_surrogate d then 4 + byteLength cs
      else (if c < 0x80 then 1 else if c < 0x800 then 2 else 3) + byteLength (d # cs))"

section \<open>Query engine: mode detection\<close>

datatype query_mode = Text | Jsonpath | Regex

text \<open>\<open>QueryEngine.detectMode\<close> (the same in both copies of the query engine).\<close>

definition detectMode :: "jstring \<Rightarrow> query_mode" where
  "detectMode query =
     (if startsWith query (ustr ''$'') then Jsonpath
      else if startsWith query (ustr ''/'') \<and> endsWith query (ustr ''/'') then Regex
      else Text)"

text \<open>
  The first line of \<open>QueryEngine.query\<close>: \<open>options.mode || this.detectMode(query)\<close>.
  The mode option is one of the three mode names or undefined (\<open>None\<close>).
\<close>

definition resolveMode :: "query_mode option \<Rightarrow> jstring \<Rightarrow> query_mode" where
  "resolveMode mode query = (case mode of Some m \<Rightarrow> m | None \<Rightarrow> detectMode query)"

section \<open>Query engine: pagination\<close>

record QueryOptions =
  mode :: "query_mode option"
  limit :: "int option"
  offset :: "int option"
  contextLines :: "int option"
  caseSensitive :: "bool option"

text \<open>
  \<open>value || dflt\<close> on an optional integer: undefined and \<open>0\<close> are both falsy and give
  the default.
\<close>

definition or_default :: "int option \<Rightarrow> int \<Rightarrow> int" where
  "or_default v dflt = (case v of None \<Rightarrow> dflt | Some n \<Rightarrow> if n = 0 then dflt else n)"

record 'a page =
  results :: "'a list"
  total :: int
  page_limit :: int
  page_offset :: int
  hasMore :: bool

text \<open>\<open>QueryEngine.applyPagination\<close> (the same in both copies).\<close>

definition applyPagination :: "'a list \<Rightarrow> QueryOptions \<Rightarrow> 'a page" where
  "applyPagination rs options =
     (let lim = or_default (limit options) 100;
          off = or_default (offset options) 0;
          paginated = js_slice rs off (off + lim)
      in \<lparr> results = paginated,
           total = int (length rs),
           page_limit = lim,
           page_offset = off,
           hasMore = (off + lim < int (length rs)) \<rparr>)"

text \<open>
  \<open>String.prototype.trim\<close>: strips the white space and line terminator code units of
  ECMAScript from both ends.
\<close>

definition js_space :: "16 word \<Rightarrow> bool" where
  "js_space c = (c \<in> {0x9, 0xA, 0xB, 0xC, 0xD, 0x20, 0xA0, 0x1680, 0x2028, 0x2029,
                        0x202F, 0x205F, 0x3000, 0xFEFF} \<or> (0x2000 \<le> c \<and> c \<le> 0x200A))"

definition trim :: "jstring \<Rightarrow> jstring" where
  "trim s = rev (dropWhile js_space (rev (dropWhile js_space s)))"

text \<open>
  A match of the line-based searches, and the same match with its context attached
  (\<open>{...match, context: {before, after}}\<close>).
\<close>

record query_match =
  line :: int
  content :: jstring
  match_chunk :: "int option"
  match_text :: "jstring option"

record match_with_context = query_match +
  context_before :: "jstring list"
  context_after :: "jstring list"

text \<open>
  \<open>allLines[i].trim()\<close>: an index outside the array reads \<open>undefined\<close>, and calling
  \<open>trim\<close> on it throws a TypeError.
\<close>

definition trimmed_line :: "jstring list \<Rightarrow> int \<Rightarrow> js_error + jstring" where
  "trimmed_line allLines i =
     (if 0 \<le> i \<and> i < int (length allLines) then Inr (trim (allLines ! nat i))
      else Inl (TypeError (ustr ''Cannot read properties of undefined (reading 'trim')'')))"

text \<open>Running a loop body over the indices in order; the first throw ends the loop.\<close>

fun collect :: "(int \<Rightarrow> js_error + 'a) \<Rightarrow> int list \<Rightarrow> js_error + 'a list" where
  "collect f [] = Inr []"
| "collect f (i # is) =
     (case f i of Inl e \<Rightarrow> Inl e
      | Inr x \<Rightarrow> (case collect f is of Inl e \<Rightarrow> Inl e | Inr xs \<Rightarrow> Inr (x # xs)))"

text \<open>The body of the \<open>matches.map\<close> callback of \<open>applyPaginationWithContext\<close>.\<close>

definition add_context :: "jstring list \<Rightarrow> int \<Rightarrow> query_match \<Rightarrow> js_error + match_with_context" where
  "add_context allLines ctx m =
     (let lineIndex = line m - 1
      in case collect (trimmed_line allLines) [max 0 (lineIndex - ctx) .. lineIndex - 1] of
           Inl e \<Rightarrow> Inl e
         | Inr bs \<Rightarrow>
             (case collect (trimmed_line allLines)
                     [lineIndex + 1 .. min (int (length allLines) - 1) (lineIndex + ctx)] of
                Inl e \<Rightarrow> Inl e
              | Inr as \<Rightarrow> Inr \<lparr> line = line m, content = content m, match_chunk = match_chunk m,
                                 match_text = match_text m,
                                 context_before = bs, context_after = as \<rparr>))"

fun map_throwing :: "('a \<Rightarrow> js_error + 'b) \<Rightarrow> 'a list \<Rightarrow> js_error + 'b list" where
  "map_throwing f [] = Inr []"
| "map_throwing f (x # xs) =
     (case f x of Inl e \<Rightarrow> Inl e
      | Inr y \<Rightarrow> (case map_throwing f xs of Inl e \<Rightarrow> Inl e | Inr ys \<Rightarrow> Inr (y # ys)))"

text \<open>
  \<open>QueryEngine.applyPaginationWithContext\<close>. \<open>options.contextLines ?? 2\<close> replaces
  only an undefined value.
\<close>

definition applyPaginationWithContext ::
  "query_match list \<Rightarrow> jstring list \<Rightarrow> QueryOptions \<Rightarrow> js_error + match_with_context page" where
  "applyPaginationWithContext matches allLines options =
     (let ctx = (case contextLines options of None \<Rightarrow> 2 | Some c \<Rightarrow> c)
      in case map_throwing (add_context allLines ctx) matches of
           Inl e \<Rightarrow> Inl e
         | Inr matchesWithContext \<Rightarrow>
             (let lim = or_default (limit options) 100;
                  off = or_default (offset options) 0;
                  paginated = js_slice matchesWithContext off (off + lim)
              in Inr \<lparr> results = paginated,
                       total = int (length matches),
                       page_limit = lim,
                       page_offset = off,
                       hasMore = (off + lim < int (length matches)) \<rparr>))"

section \<open>Query engine: chunk extraction\<close>

text \<open>
  The result of a division of integers in JavaScript: a finite value, \<open>Infinity\<close> for a
  positive integer divided by zero, \<open>NaN\<close> for zero divided by zero.
\<close>

datatype js_number = Finite int | Infinity | NaN

text \<open>
  \<open>Math.ceil(len / chunkSize)\<close> for a length \<open>len \<ge> 0\<close>. For a divisor other than
  zero the ceiling of the quotient is \<open>- ((- len) div chunkSize)\<close>, because \<open>div\<close>
  rounds down.
\<close>

definition ceil_div :: "int \<Rightarrow> int \<Rightarrow> js_number" where
  "ceil_div len chunkSize =
     (if chunkSize = 0 then (if len = 0 then NaN else Infinity)
      else Finite (- ((- len) div chunkSize)))"

text \<open>\<open>n >= t\<close>, \<open>n < t\<close>, \<open>t - 1\<close> and \<open>String(t)\<close> for an integer \<open>n\<close> and such a \<open>t\<close>.\<close>

fun int_ge :: "int \<Rightarrow> js_number \<Rightarrow> bool" where
  "int_ge n (Finite t) = (n \<ge> t)"
| "int_ge n Infinity = False"
| "int_ge n NaN = False"

fun int_less :: "int \<Rightarrow> js_number \<Rightarrow> bool" where
  "int_less n (Finite t) = (n < t)"
| "int_less n Infinity = True"
| "int_less n NaN = False"

fun minus_one :: "js_number \<Rightarrow> js_number" where
  "minus_one (Finite t) = Finite (t - 1)"
| "minus_one Infinity = Infinity"
| "minus_one NaN = NaN"

fun show_number :: "js_number \<Rightarrow> jstring" where
  "show_number (Finite t) = show_int t"
| "show_number Infinity = ustr ''Infinity''"
| "show_number NaN = ustr ''NaN''"

record chunk_result =
  chunk :: jstring
  chunkNumber :: int
  totalChunks :: js_number
  chunkSize :: int
  chunk_hasMore :: bool

text \<open>\<open>QueryEngine.extractChunk\<close> (the same in both copies).\<close>

definition extractChunk :: "json \<Rightarrow> int \<Rightarrow> int \<Rightarrow> js_error + chunk_result" where
  "extractChunk data' chunkNo size' =
     (let dataStr = JSON_stringify_pretty data';
          total' = ceil_div (int (length dataStr)) size'
      in if chunkNo < 0 \<or> int_ge chunkNo total'
         then Inl (Error (ustr ''Invalid chunk number. Valid range: 0-''
                          @ show_number (minus_one total')))
         else
           (let start = chunkNo * size';
                end' = min (start + size') (int (length dataStr));
                piece = js_slice dataStr start end'
            in Inr \<lparr> chunk = piece,
                     chunkNumber = chunkNo,
                     totalChunks = total',
                     chunkSize = int (length piece),
                     chunk_hasMore = int_less chunkNo (minus_one total') \<rparr>))"

section \<open>Cache manager\<close>

text \<open>
  \<open>ResponseMetadata\<close> and \<open>CachedResponse\<close>. The two time stamps are ISO-8601 texts in the
  source, written by \<open>toISOString\<close> and read back by \<open>new Date\<close>; they are represented
  by the instant they denote, in milliseconds since the epoch.
\<close>

record ResponseMetadata =
  id' :: jstring
  tool :: jstring
  sizeBytes :: nat
  createdAt :: int
  expiresAt :: int
  client :: jstring
  chunks :: js_number
  indexed :: bool

record CachedResponse = ResponseMetadata +
  data :: json

text \<open>
  The cache directory holds two files for an id: the payload \<open><id>.json\<close>, written with
  \<open>JSON.stringify(data)\<close>, and the metadata \<open><id>.meta.json\<close>. Each kind of file is a map
  from the id to the value that \<open>JSON.parse\<close> reads from the file, which for a file written
  with \<open>JSON.stringify(v)\<close> is \<open>v\<close>; an absent file has no entry. Reading or unlinking
  an absent file throws; writing a file always succeeds. The ids that \<open>save\<close> generates
  do not end in \<open>.meta\<close>, so the two kinds of files never share a name.
\<close>

record cache_files =
  data_files :: "jstring \<rightharpoonup> json"
  meta_files :: "jstring \<rightharpoonup> ResponseMetadata"

text \<open>Two lower-case hexadecimal digits for each byte: \<open>buf.toString('hex')\<close>.\<close>

definition hex_of_bytes :: "8 word list \<Rightarrow> jstring" where
  "hex_of_bytes bs = concat (map (\<lambda>b. [digit_char (unat b div 16), digit_char (unat b mod 16)]) bs)"

text \<open>\<open>CacheManager.generateId\<close>; the argument is the value of \<open>randomBytes(6)\<close>.\<close>

definition generateId :: "8 word list \<Rightarrow> jstring" where
  "generateId random = ustr ''resp_'' @ hex_of_bytes random"

text \<open>
  \<open>CacheManager.save\<close>, for a manager with time to live \<open>ttl\<close> (seconds), the random bytes
  \<open>random\<close> and the clock reading \<open>now\<close>.
\<close>

definition save ::
  "int \<Rightarrow> cache_files \<Rightarrow> 8 word list \<Rightarrow> int \<Rightarrow> jstring \<Rightarrow> json \<Rightarrow> jstring \<Rightarrow> jstring \<times> cache_files" where
  "save ttl files random now tool' data' client' =
     (let ident = generateId random;
          expires = now + ttl * 1000;
          dataStr = JSON_stringify data';
          size' = byteLength dataStr;
          cached = \<lparr> id' = ident, tool = tool', sizeBytes = size', createdAt = now,
                     expiresAt = expires, client = client',
                     chunks = ceil_div (int (length dataStr)) 10000,
                     indexed = False, data = data' \<rparr>;
          metadata = \<lparr> id' = ident, tool = tool', sizeBytes = size',
                       createdAt = createdAt cached, expiresAt = expiresAt cached,
                       client = client', chunks = chunks cached, indexed = False \<rparr>
      in (ident, files \<lparr> data_files := (data_files files)(ident \<mapsto> data'),
                          meta_files := (meta_files files)(ident \<mapsto> metadata) \<rparr>))"

text \<open>\<open>CacheManager.getMetadata\<close>: \<open>None\<close> is the \<open>null\<close> of the catch branch.\<close>

definition getMetadata :: "cache_files \<Rightarrow> jstring \<Rightarrow> ResponseMetadata option" where
  "getMetadata files ident = meta_files files ident"

text \<open>
  \<open>CacheManager.delete\<close>: the first \<open>unlink\<close> that throws ends the try block, and the
  catch branch returns false.
\<close>

definition delete :: "cache_files \<Rightarrow> jstring \<Rightarrow> bool \<times> cache_files" where
  "delete files ident =
     (case data_files files ident of
        None \<Rightarrow> (False, files)
      | Some _ \<Rightarrow>
          (let files1 = files \<lparr> data_files := (data_files files)(ident := None) \<rparr>
           in case meta_files files1 ident of
                None \<Rightarrow> (False, files1)
              | Some _ \<Rightarrow> (True, files1 \<lparr> meta_files := (meta_files files1)(ident := None) \<rparr>)))"

text \<open>
  \<open>CacheManager.get\<close> at the clock reading \<open>now\<close>. The result \<open>null\<close> of the source is
  \<open>JNull\<close>, which is also what a stored \<open>null\<close> payload reads as.
\<close>

definition get :: "cache_files \<Rightarrow> int \<Rightarrow> jstring \<Rightarrow> json \<times> cache_files" where
  "get files now ident =
     (case getMetadata files ident of
        Some metadata \<Rightarrow>
          if expiresAt metadata < now then (JNull, snd (delete files ident))
          else (case data_files files ident of None \<Rightarrow> (JNull, files) | Some d \<Rightarrow> (d, files))
      | None \<Rightarrow> (case data_files files ident of None \<Rightarrow> (JNull, files) | Some d \<Rightarrow> (d, files)))"

section \<open>Configuration\<close>

record ClientInfo =
  name :: jstring
  version :: jstring

text \<open>\<open>StreamConfig\<close> without the cache directory, which the model of the files does not use.\<close>

record StreamConfig =
  maxTokens :: int
  chunkSize :: int
  ttl :: int
  enableIndexing :: bool
  compression :: bool
  debug :: bool

definition CLIENT_PRESETS :: "(jstring \<times> int) list" where
  "CLIENT_PRESETS =
     [(ustr ''claude-ai'', 25000), (ustr ''claude-code'', 25000), (ustr ''cursor'', 30000),
      (ustr ''cline'', 25000), (ustr ''default'', 20000)]"

definition DEFAULT_CONFIG :: StreamConfig where
  "DEFAULT_CONFIG = \<lparr> maxTokens = 25000, chunkSize = 10000, ttl = 3600,
                        enableIndexing = True, compression = True, debug = False \<rparr>"

text \<open>
  The environment variables that \<open>loadConfig\<close> reads. For the three numeric variables the
  field is the integer that \<open>parseInt(text, 10)\<close> returns, and \<open>None\<close> stands for a variable
  that is unset or empty; a text from which \<open>parseInt\<close> reads no integer is not modelled.
  For the three flags the field is the text of the variable.
\<close>

record environment =
  MCP_CACHE_MAX_TOKENS :: "int option"
  MCP_CACHE_CHUNK_SIZE :: "int option"
  MCP_CACHE_TTL :: "int option"
  MCP_CACHE_ENABLE_INDEXING :: "jstring option"
  MCP_CACHE_COMPRESSION :: "jstring option"
  MCP_CACHE_DEBUG :: "jstring option"

text \<open>\<open>ConfigManager.loadConfig\<close>.\<close>

definition loadConfig :: "ClientInfo option \<Rightarrow> environment \<Rightarrow> StreamConfig" where
  "loadConfig clientInfo env =
     (let config0 = DEFAULT_CONFIG;
          config1 = (case clientInfo of
                       None \<Rightarrow> config0
                     | Some info \<Rightarrow>
                         config0 \<lparr> maxTokens :=
                           (case map_of CLIENT_PRESETS (name info) of
                              Some n \<Rightarrow> n
                            | None \<Rightarrow> the (map_of CLIENT_PRESETS (ustr ''default''))) \<rparr>);
          config2 = (case MCP_CACHE_MAX_TOKENS env of
                       None \<Rightarrow> config1 | Some n \<Rightarrow> config1 \<lparr> maxTokens := n \<rparr>);
          config3 = (case MCP_CACHE_CHUNK_SIZE env of
                       None \<Rightarrow> config2 | Some n \<Rightarrow> config2 \<lparr> chunkSize := n \<rparr>);
          config4 = (case MCP_CACHE_TTL env of
                       None \<Rightarrow> config3 | Some n \<Rightarrow> config3 \<lparr> ttl := n \<rparr>);
          config5 = (case MCP_CACHE_ENABLE_INDEXING env of
                       None \<Rightarrow> config4
                     | Some t \<Rightarrow> config4 \<lparr> enableIndexing := (t = ustr ''true'') \<rparr>);
          config6 = (case MCP_CACHE_COMPRESSION env of
                       None \<Rightarrow> config5
                     | Some t \<Rightarrow> config5 \<lparr> compression := (t = ustr ''true'') \<rparr>)
      in case MCP_CACHE_DEBUG env of
           None \<Rightarrow> config6
         | Some t \<Rightarrow> config6 \<lparr> debug := (t = ustr ''true'') \<rparr>)"


section \<open>Proxy: forwarding a tool call\<close>









section \<open>Transport to the target server\<close>

text \<open>
  Truthiness of a JSON value, and the property \<open>value.key\<close>: \<open>None\<close> is \<open>undefined\<close>.
  The keys of a parsed object are distinct. Reading a property of \<open>null\<close> throws; the
  functions below never do it.
\<close>

fun truthy :: "json \<Rightarrow> bool" where
  "truthy JNull = False"
| "truthy (JBool b) = b"
| "truthy (JNum n) = (n \<noteq> 0)"
| "truthy (JStr s) = (s \<noteq> [])"
| "truthy (JArr xs) = True"
| "truthy (JObj ms) = True"

fun js_prop :: "json \<Rightarrow> jstring \<Rightarrow> json option" where
  "js_prop (JObj ms) key = map_of ms key"
| "js_prop v key = None"

text \<open>
  \<open>String(value)\<close>, which \<open>new Error(value)\<close> applies to its argument: an array joins the
  texts of its elements with commas, \<open>null\<close> elements being empty.
\<close>

fun to_text :: "json \<Rightarrow> jstring"
  and join_texts :: "json list \<Rightarrow> jstring"
where
  "to_text JNull = ustr ''null''"
| "to_text (JBool b) = (if b then ustr ''true'' else ustr ''false'')"
| "to_text (JNum n) = show_int n"
| "to_text (JStr s) = s"
| "to_text (JArr xs) = join_texts xs"
| "to_text (JObj ms) = ustr ''[object Object]''"
| "join_texts [] = []"
| "join_texts (x # xs) =
     (if x = JNull then [] else to_text x) @ (if xs = [] then [] else ustr '','' @ join_texts xs)"

text \<open>How the promise returned by \<open>sendRequest\<close> has settled.\<close>

datatype outcome = Resolved "json option" | Rejected js_error

text \<open>
  The state of a \<open>TargetServerTransport\<close>. \<open>messageHandlers\<close> holds the ids that have a
  handler; every handler is the closure of \<open>sendRequest\<close> for its own promise.
  \<open>settled\<close> is the outcome of the promise of each request id, \<open>timers\<close> the pending
  \<open>setTimeout\<close> callbacks with the instant at which each is due and the request id it
  closes over, \<open>inputStream\<close> the lines written to the target server (\<open>None\<close> before
  \<open>start\<close>), \<open>notificationHandlers\<close> the number of registered listeners and \<open>delivered\<close>
  the notifications passed to them.
\<close>

record transport =
  nextId :: int
  messageHandlers :: "int set"
  settled :: "int \<rightharpoonup> outcome"
  timers :: "(int \<times> int) list"
  inputStream :: "jstring list option"
  notificationHandlers :: nat
  delivered :: "(nat \<times> json) list"

definition new_transport :: transport where
  "new_transport = \<lparr> nextId = 1, messageHandlers = {}, settled = Map.empty, timers = [],
                       inputStream = None, notificationHandlers = 0, delivered = [] \<rparr>"

text \<open>\<open>resolve\<close> and \<open>reject\<close>: a promise settles once, later calls change nothing.\<close>

definition settle :: "int \<Rightarrow> outcome \<Rightarrow> transport \<Rightarrow> transport" where
  "settle ident result t =
     (case settled t ident of
        None \<Rightarrow> t \<lparr> settled := (settled t)(ident \<mapsto> result) \<rparr>
      | Some _ \<Rightarrow> t)"

text \<open>
  \<open>TargetServerTransport.sendRequest\<close> at the clock reading \<open>now\<close>; the id is returned
  with the new state. \<open>params || {}\<close> replaces a falsy argument.
\<close>

definition sendRequest :: "int \<Rightarrow> jstring \<Rightarrow> json option \<Rightarrow> transport \<Rightarrow> int \<times> transport" where
  "sendRequest now method params t =
     (let ident = nextId t;
          request = JObj [(ustr ''jsonrpc'', JStr (ustr ''2.0'')),
                          (ustr ''id'', JNum ident),
                          (ustr ''method'', JStr method),
                          (ustr ''params'',
                             (case params of
                                None \<Rightarrow> JObj []
                              | Some p \<Rightarrow> if truthy p then p else JObj []))];
          text' = JSON_stringify request @ [0x0A]
      in (ident,
          t \<lparr> nextId := ident + 1,
              messageHandlers := insert ident (messageHandlers t),
              inputStream := map_option (\<lambda>written. written @ [text']) (inputStream t),
              timers := timers t @ [(now + 30000, ident)] \<rparr>))"

text \<open>The handler that \<open>sendRequest\<close> registers for the request \<open>ident\<close>.\<close>

definition response_handler :: "int \<Rightarrow> json \<Rightarrow> transport \<Rightarrow> transport" where
  "response_handler ident response t =
     (case js_prop response (ustr ''error'') of
        Some err \<Rightarrow>
          if truthy err
          then settle ident
                 (Rejected (Error
                    (case js_prop err (ustr ''message'') of
                       Some m \<Rightarrow> if truthy m then to_text m else ustr ''Unknown error''
                     | None \<Rightarrow> ustr ''Unknown error''))) t
          else settle ident (Resolved (js_prop response (ustr ''result''))) t
      | None \<Rightarrow> settle ident (Resolved (js_prop response (ustr ''result''))) t)"

text \<open>
  \<open>TargetServerTransport.handleMessage\<close> for a parsed line other than \<open>null\<close>. A key of
  \<open>messageHandlers\<close> is a number, so an id of another type finds no handler.
\<close>

definition handleMessage :: "json \<Rightarrow> transport \<Rightarrow> transport" where
  "handleMessage msg t =
     (case js_prop msg (ustr ''id'') of
        Some i \<Rightarrow>
          (case i of
             JNum ident \<Rightarrow>
               if ident \<in> messageHandlers t
               then (let t' = response_handler ident msg t
                     in t' \<lparr> messageHandlers := messageHandlers t' - {ident} \<rparr>)
               else t
           | _ \<Rightarrow> t)
      | None \<Rightarrow>
          (case js_prop msg (ustr ''method'') of
             Some m \<Rightarrow>
               if truthy m
               then t \<lparr> delivered := delivered t
                                      @ map (\<lambda>h. (h, msg)) [0 ..< notificationHandlers t] \<rparr>
               else t
           | None \<Rightarrow> t))"

text \<open>The callback that \<open>sendRequest\<close> passes to \<open>setTimeout\<close> for the request \<open>ident\<close>.\<close>

definition timeout_callback :: "int \<Rightarrow> transport \<Rightarrow> transport" where
  "timeout_callback ident t =
     (if ident \<in> messageHandlers t
      then settle ident (Rejected (Error (ustr ''Request timeout'')))
             (t \<lparr> messageHandlers := messageHandlers t - {ident} \<rparr>)
      else t)"

text \<open>
  The timer phase of the event loop at the clock reading \<open>now\<close>: the callbacks that are
  due run in the order in which they were scheduled, and leave the timer list.
\<close>

definition run_timers :: "int \<Rightarrow> transport \<Rightarrow> transport" where
  "run_timers now t =
     (let due = filter (\<lambda>(at, ident). at \<le> now) (timers t);
          waiting = filter (\<lambda>(at, ident). \<not> at \<le> now) (timers t)
      in fold (\<lambda>(at, ident). timeout_callback ident) due (t \<lparr> timers := waiting \<rparr>))"

text \<open>
  What happens to a transport, one callback of the event loop at a time: a call of
  \<open>sendRequest\<close> at a clock reading, a parsed line that \<open>handleData\<close> passes to
  \<open>handleMessage\<close>, or the timer phase at a clock reading.
\<close>

datatype event = Request int jstring "json option" | Line json | Timers int

fun step :: "transport \<Rightarrow> event \<Rightarrow> transport" where
  "step t (Request now method params) = snd (sendRequest now method params t)"
| "step t (Line msg) = handleMessage msg t"
| "step t (Timers now) = run_timers now t"

definition run :: "event list \<Rightarrow> transport \<Rightarrow> transport" where
  "run events t = foldl step t events"

section \<open>Auxiliary notions for the statements\<close>

text \<open>
  A match that the line-based searches can produce for the lines \<open>allLines\<close>: its line
  number, counted from one, is the number of one of the lines.
\<close>

definition valid_match :: "jstring list \<Rightarrow> query_match \<Rightarrow> bool" where
  "valid_match allLines m = (1 \<le> line m \<and> line m \<le> int (length allLines))"

text \<open>Options with no field set, and a match on a given line, for the examples.\<close>

definition no_options :: QueryOptions where
  "no_options = \<lparr> mode = None, limit = None, offset = None, contextLines = None, caseSensitive = None \<rparr>"

definition sample_match :: "int \<Rightarrow> query_match" where
  "sample_match n = \<lparr> line = n, content = ustr ''x'', match_chunk = None, match_text = None \<rparr>"

text \<open>
  The number of chunks of a value for a positive chunk size: the length of its indented
  serialization divided by the chunk size, rounded up.
\<close>

definition chunk_total :: "json \<Rightarrow> int \<Rightarrow> int" where
  "chunk_total v size' = - ((- int (length (JSON_stringify_pretty v))) div size')"

text \<open>The chunk text of a result of \<open>extractChunk\<close>; a failed call has none.\<close>

definition chunk_or_empty :: "js_error + chunk_result \<Rightarrow> jstring" where
  "chunk_or_empty r = (case r of Inl e \<Rightarrow> [] | Inr c \<Rightarrow> chunk c)"

text \<open>The error that \<open>extractChunk\<close> throws; its message names the last valid chunk number.\<close>

definition range_error :: "int \<Rightarrow> js_error" where
  "range_error last_valid = Error (ustr ''Invalid chunk number. Valid range: 0-'' @ show_int last_valid)"

text \<open>A value whose indented serialization has twelve code units.\<close>

definition sample_value :: json where
  "sample_value = JArr [JNum 1, JNum 2]"

text \<open>A cache directory with no file.\<close>

definition no_files :: cache_files where
  "no_files = \<lparr> data_files = Map.empty, meta_files = Map.empty \<rparr>"

text \<open>A metadata record for an id, with a given expiry instant.\<close>

definition sample_metadata :: "jstring \<Rightarrow> int \<Rightarrow> ResponseMetadata" where
  "sample_metadata ident expires =
     \<lparr> id' = ident, tool = ustr ''dom'', sizeBytes = 4, createdAt = 0, expiresAt = expires,
       client = ustr ''claude-ai'', chunks = Finite 1, indexed = False \<rparr>"

text \<open>
  A cache directory that holds the metadata file of an id and not its payload file, as
  it is left when the process stops between the two \<open>unlink\<close> calls of \<open>delete\<close>, or when
  \<open>refresh\<close> writes the metadata back after a \<open>delete\<close> that ran in between.
\<close>

definition orphan_metadata :: cache_files where
  "orphan_metadata =
     \<lparr> data_files = Map.empty,
       meta_files = [ustr ''resp_0a0b0c0d0e0f'' \<mapsto> sample_metadata (ustr ''resp_0a0b0c0d0e0f'') 1000] \<rparr>"

text \<open>An environment with none of the variables set.\<close>

definition no_environment :: environment where
  "no_environment = \<lparr> MCP_CACHE_MAX_TOKENS = None, MCP_CACHE_CHUNK_SIZE = None,
                        MCP_CACHE_TTL = None, MCP_CACHE_ENABLE_INDEXING = None,
                        MCP_CACHE_COMPRESSION = None, MCP_CACHE_DEBUG = None \<rparr>"

text \<open>A line whose id is the number \<open>ident\<close>: a response to the request \<open>ident\<close>.\<close>

fun answers :: "int \<Rightarrow> event \<Rightarrow> bool" where
  "answers ident (Line msg) = (js_prop msg (ustr ''id'') = Some (JNum ident))"
| "answers ident e = False"

text \<open>A timer phase at or after the instant \<open>due\<close>.\<close>

fun fires :: "int \<Rightarrow> event \<Rightarrow> bool" where
  "fires due (Timers now) = (due \<le> now)"
| "fires due e = False"

text \<open>
  No event of the list answers the request \<open>ident\<close> or runs the timers at or after \<open>due\<close>.
\<close>

definition undisturbed :: "int \<Rightarrow> int \<Rightarrow> event list \<Rightarrow> bool" where
  "undisturbed ident due events = list_all (\<lambda>e. \<not> answers ident e \<and> \<not> fires due e) events"

text \<open>Ids in use are below \<open>nextId\<close>, and an id with a handler has an unsettled promise.\<close>

definition consistent :: "transport \<Rightarrow> bool" where
  "consistent t =
     ((\<forall>j \<in> messageHandlers t. j < nextId t \<and> settled t j = None)
      \<and> (\<forall>j. settled t j \<noteq> None \<longrightarrow> j < nextId t)
      \<and> (\<forall>(at, j) \<in> set (timers t). j < nextId t))"

text \<open>The request \<open>ident\<close>, whose timer is due at \<open>due\<close>, is waiting for its response.\<close>

definition pending :: "int \<Rightarrow> int \<Rightarrow> transport \<Rightarrow> bool" where
  "pending ident due t =
     (ident \<in> messageHandlers t \<and> settled t ident = None \<and> ident < nextId t
      \<and> (due, ident) \<in> set (timers t)
      \<and> (\<forall>(at, j) \<in> set (timers t). j = ident \<longrightarrow> at = due))"

text \<open>A response line for a request id, with further members.\<close>

definition response_line :: "int \<Rightarrow> (jstring \<times> json) list \<Rightarrow> json" where
  "response_line ident members =
     JObj ([(ustr ''jsonrpc'', JStr (ustr ''2.0'')), (ustr ''id'', JNum ident)] @ members)"

text \<open>
  Responses to the request 1: one that carries an error object with a message, and one
  that carries a result together with \<open>"error": null\<close>.
\<close>

definition error_with_message :: "jstring \<Rightarrow> json" where
  "error_with_message m =
     response_line 1 [(ustr ''error'', JObj [(ustr ''code'', JNum (- 32000)), (ustr ''message'', JStr m)])]"

definition null_error :: json where
  "null_error = response_line 1 [(ustr ''result'', JStr (ustr ''ok'')), (ustr ''error'', JNull)]"

text \<open>
  Events that neither answer the request 1 nor run the timers at or after 30000: another
  request, the response to it, and a timer phase one millisecond before the timeout.
\<close>

definition quiet_events :: "event list" where
  "quiet_events =
     [Request 5 (ustr ''ping'') None,
      Line (response_line 2 [(ustr ''result'', JNull)]),
      Timers 29999]"


section \<open>Properties of the query engine\<close>

subsection \<open>Mode detection\<close>

lemma startsWith_single: "startsWith q [c] \<longleftrightarrow> q \<noteq> [] \<and> hd q = c"
  by (cases q) (auto simp: startsWith_def)

lemma endsWith_single: "endsWith q [c] \<longleftrightarrow> q \<noteq> [] \<and> last q = c"
proof (cases q rule: rev_cases)
  case Nil
  then show ?thesis by (simp add: endsWith_def)
next
  case (snoc ys y)
  then show ?thesis by (auto simp: endsWith_def)
qed

text \<open>
  C4, as the specification states it, fails: with the mode unset, the query \<open>/foo/i\<close>, a
  pattern between slashes followed by a flag, does not resolve to the regex mode.
\<close>

theorem resolveMode_flags_counterexample:
  "resolveMode None (ustr ''/foo/i'') \<noteq> Regex"
  by (simp add: resolveMode_def detectMode_def ustr_def startsWith_def endsWith_def)

text \<open>
  C4, amended: with the mode unset, a query whose first code unit is \<open>$\<close> resolves to the
  structured-path mode; any other query whose first and last code units are both \<open>/\<close>
  (the one-character query \<open>/\<close> included) resolves to the regex mode; every other query,
  and so a pattern between slashes that is followed by flags, resolves to the text mode.
\<close>

theorem resolveMode_auto:
  "resolveMode None q =
     (if q \<noteq> [] \<and> hd q = of_char CHR ''$'' then Jsonpath
      else if q \<noteq> [] \<and> hd q = of_char CHR ''/'' \<and> last q = of_char CHR ''/'' then Regex
      else Text)"
  by (simp add: resolveMode_def detectMode_def ustr_def startsWith_single endsWith_single)

theorem resolveMode_auto_witness:
  "resolveMode None (ustr ''$.a.b'') = Jsonpath \<and> resolveMode None (ustr ''/foo/'') = Regex
   \<and> resolveMode None (ustr ''/'') = Regex \<and> resolveMode None (ustr ''foo'') = Text
   \<and> resolveMode None (ustr ''/foo/i'') = Text"
  using resolveMode_auto [of "ustr ''$.a.b''"] resolveMode_auto [of "ustr ''/foo/''"]
    resolveMode_auto [of "ustr ''/''"] resolveMode_auto [of "ustr ''foo''"]
    resolveMode_auto [of "ustr ''/foo/i''"]
  by (simp add: ustr_def)

subsection \<open>Pagination\<close>

lemma js_slice_window:
  assumes "0 \<le> off" "0 \<le> lim"
  shows "js_slice xs off (off + lim) = take (nat lim) (drop (nat off) xs)"
proof (cases "off \<le> int (length xs)")
  case True
  with assms have "js_slice xs off (off + lim)
      = take (nat (min (off + lim) (int (length xs)) - off)) (drop (nat off) xs)"
    by (simp add: js_slice_def Let_def min_def)
  also have "\<dots> = take (nat lim) (drop (nat off) xs)"
    using assms True by (cases "off + lim \<le> int (length xs)") (simp_all add: min_def)
  finally show ?thesis .
next
  case False
  with assms show ?thesis by (simp add: js_slice_def Let_def min_def)
qed

lemma or_default_Some: "or_default (Some n) d = (if n = 0 then d else n)"
  by (simp add: or_default_def)

lemma or_default_None: "or_default None d = d"
  by (simp add: or_default_def)

lemma collect_in_range:
  assumes "\<forall>i \<in> set is. 0 \<le> i \<and> i < int (length allLines)"
  shows "collect (trimmed_line allLines) is = Inr (map (\<lambda>i. trim (allLines ! nat i)) is)"
  using assms by (induction "is") (simp_all add: trimmed_line_def)

lemma add_context_valid:
  assumes "valid_match allLines m"
  shows "\<exists>bs as. add_context allLines ctx m =
           Inr \<lparr> line = line m, content = content m, match_chunk = match_chunk m,
                 match_text = match_text m, context_before = bs, context_after = as \<rparr>"
proof -
  have b: "\<forall>i \<in> set [max 0 (line m - 1 - ctx) .. line m - 1 - 1]. 0 \<le> i \<and> i < int (length allLines)"
    using assms by (auto simp: valid_match_def)
  have a: "\<forall>i \<in> set [line m - 1 + 1 .. min (int (length allLines) - 1) (line m - 1 + ctx)].
             0 \<le> i \<and> i < int (length allLines)"
    using assms by (auto simp: valid_match_def)
  show ?thesis
    unfolding add_context_def Let_def
    by (simp only: collect_in_range [OF b] collect_in_range [OF a] sum.case) blast
qed

lemma add_context_truncate:
  assumes "valid_match allLines m"
  shows "\<exists>r. add_context allLines ctx m = Inr r \<and> query_match.truncate r = m"
proof -
  from add_context_valid [OF assms] obtain bs as where
    "add_context allLines ctx m =
           Inr \<lparr> line = line m, content = content m, match_chunk = match_chunk m,
                 match_text = match_text m, context_before = bs, context_after = as \<rparr>"
    by blast
  then show ?thesis by (simp add: query_match.truncate_def)
qed

lemma map_throwing_valid:
  assumes "\<forall>m \<in> set ms. valid_match allLines m"
  shows "\<exists>rs. map_throwing (add_context allLines ctx) ms = Inr rs
           \<and> map query_match.truncate rs = ms"
  using assms
proof (induction ms)
  case Nil
  then show ?case by simp
next
  case (Cons m ms)
  then obtain rs where rs: "map_throwing (add_context allLines ctx) ms = Inr rs"
     "map query_match.truncate rs = ms" by auto
  from Cons.prems add_context_truncate [of allLines m ctx] obtain r where
    r: "add_context allLines ctx m = Inr r" "query_match.truncate r = m" by auto
  show ?case using rs r by simp
qed


lemma applyPagination_window:
  assumes "1 \<le> L" "0 \<le> off"
  shows "applyPagination rs (opts\<lparr>limit := Some L, offset := Some off\<rparr>) =
           \<lparr> results = take (nat L) (drop (nat off) rs), total = int (length rs),
             page_limit = L, page_offset = off, hasMore = (off + L < int (length rs)) \<rparr>"
  using assms
  by (simp add: applyPagination_def or_default_Some Let_def js_slice_window)

lemma applyPaginationWithContext_window:
  assumes "1 \<le> L" "0 \<le> off" "\<forall>m \<in> set qs. valid_match allLines m"
  shows "\<exists>p. applyPaginationWithContext qs allLines (opts\<lparr>limit := Some L, offset := Some off\<rparr>) = Inr p
           \<and> map query_match.truncate (results p) = take (nat L) (drop (nat off) qs)
           \<and> total p = int (length qs) \<and> page_limit p = L \<and> page_offset p = off
           \<and> hasMore p = (off + L < int (length qs))"
proof -
  obtain rs where rs:
    "map_throwing (add_context allLines (case contextLines opts of None \<Rightarrow> 2 | Some c \<Rightarrow> c)) qs = Inr rs"
    "map query_match.truncate rs = qs"
    using map_throwing_valid [OF assms(3)] by blast
  have "map query_match.truncate (take (nat L) (drop (nat off) rs)) = take (nat L) (drop (nat off) qs)"
    by (simp add: rs(2) [symmetric] take_map drop_map)
  then show ?thesis
    using assms(1,2) rs(1)
    by (simp add: applyPaginationWithContext_def or_default_Some Let_def js_slice_window)
qed

text \<open>
  C6, amended: for a limit \<open>L \<ge> 1\<close> and an offset \<open>off \<ge> 0\<close> the page is
  \<open>matches[off : off + L]\<close>, the total is the number of all matches and \<open>hasMore\<close> holds
  exactly when \<open>off + L\<close> is less than that number; the pages at offsets \<open>0\<close> and \<open>L\<close>
  together are the first \<open>2L\<close> matches, in order, with no match twice and none left out.
  The same holds for the paginated line matches with context, which are the matches of
  that slice with their context attached. (A limit of zero is replaced by 100: see C10.)
\<close>

theorem pagination_law:
  assumes "1 \<le> L" and "0 \<le> off"
  shows "applyPagination rs (opts\<lparr>limit := Some L, offset := Some off\<rparr>) =
           \<lparr> results = take (nat L) (drop (nat off) rs), total = int (length rs),
             page_limit = L, page_offset = off, hasMore = (off + L < int (length rs)) \<rparr>
         \<and> results (applyPagination rs (opts\<lparr>limit := Some L, offset := Some 0\<rparr>))
             @ results (applyPagination rs (opts\<lparr>limit := Some L, offset := Some L\<rparr>))
           = take (nat (2 * L)) rs
         \<and> ((\<forall>m \<in> set qs. valid_match allLines m) \<longrightarrow>
              (\<exists>p. applyPaginationWithContext qs allLines
                      (opts\<lparr>limit := Some L, offset := Some off\<rparr>) = Inr p
                 \<and> map query_match.truncate (results p) = take (nat L) (drop (nat off) qs)
                 \<and> total p = int (length qs)
                 \<and> hasMore p = (off + L < int (length qs))))"
proof (intro conjI impI)
  show "applyPagination rs (opts\<lparr>limit := Some L, offset := Some off\<rparr>) =
           \<lparr> results = take (nat L) (drop (nat off) rs), total = int (length rs),
             page_limit = L, page_offset = off, hasMore = (off + L < int (length rs)) \<rparr>"
    by (rule applyPagination_window [OF assms])
next
  have first: "results (applyPagination rs (opts\<lparr>limit := Some L, offset := Some 0\<rparr>)) = take (nat L) rs"
    using assms(1) by (simp add: applyPagination_window)
  have second: "results (applyPagination rs (opts\<lparr>limit := Some L, offset := Some L\<rparr>))
                  = take (nat L) (drop (nat L) rs)"
    using assms(1) by (simp add: applyPagination_window)
  have "nat (2 * L) = nat L + nat L" using assms(1) by simp
  then show "results (applyPagination rs (opts\<lparr>limit := Some L, offset := Some 0\<rparr>))
             @ results (applyPagination rs (opts\<lparr>limit := Some L, offset := Some L\<rparr>))
           = take (nat (2 * L)) rs"
    by (simp only: first second take_add)
next
  assume "\<forall>m \<in> set qs. valid_match allLines m"
  from applyPaginationWithContext_window [OF assms this, of opts]
  show "\<exists>p. applyPaginationWithContext qs allLines
                      (opts\<lparr>limit := Some L, offset := Some off\<rparr>) = Inr p
                 \<and> map query_match.truncate (results p) = take (nat L) (drop (nat off) qs)
                 \<and> total p = int (length qs)
                 \<and> hasMore p = (off + L < int (length qs))"
    by blast
qed

theorem pagination_law_witness:
  "(1::int) \<le> 2 \<and> (0::int) \<le> 1
   \<and> applyPagination [10, 20, 30, 40, 50 :: nat] (no_options\<lparr>limit := Some 2, offset := Some 1\<rparr>) =
           \<lparr> results = [20, 30], total = 5, page_limit = 2, page_offset = 1, hasMore = True \<rparr>
   \<and> results (applyPagination [10, 20, 30, 40, 50 :: nat] (no_options\<lparr>limit := Some 2, offset := Some 0\<rparr>))
       @ results (applyPagination [10, 20, 30, 40, 50 :: nat] (no_options\<lparr>limit := Some 2, offset := Some 2\<rparr>))
       = [10, 20, 30, 40]
   \<and> valid_match [ustr ''a'', ustr ''b'', ustr ''c''] (sample_match 1)
   \<and> valid_match [ustr ''a'', ustr ''b'', ustr ''c''] (sample_match 3)
   \<and> valid_match [ustr ''a'', ustr ''b'', ustr ''c''] (sample_match 2)
   \<and> (\<exists>p. applyPaginationWithContext [sample_match 1, sample_match 3, sample_match 2]
              [ustr ''a'', ustr ''b'', ustr ''c'']
              (no_options\<lparr>limit := Some 2, offset := Some 1\<rparr>) = Inr p
          \<and> map query_match.truncate (results p) = [sample_match 3, sample_match 2]
          \<and> total p = 3 \<and> hasMore p = False)"
proof -
  have v: "\<forall>m \<in> set [sample_match 1, sample_match 3, sample_match 2].
          valid_match [ustr ''a'', ustr ''b'', ustr ''c''] m"
    by (simp add: valid_match_def sample_match_def)
  have h: "(1::int) \<le> 2" "(0::int) \<le> 1" by simp_all
  from pagination_law [OF h, of "[10, 20, 30, 40, 50 :: nat]" no_options
      "[sample_match 1, sample_match 3, sample_match 2]" "[ustr ''a'', ustr ''b'', ustr ''c'']"] v
  show ?thesis by simp
qed

text \<open>
  C6, as the specification states it for any limit, fails at the limit zero: the page is
  not the empty slice \<open>matches[0 : 0]\<close>, and \<open>hasMore\<close> is not \<open>0 + 0 < N\<close>.
\<close>

theorem pagination_zero_limit_counterexample:
  "results (applyPagination [10, 20, 30 :: nat] (no_options\<lparr>limit := Some 0, offset := Some 0\<rparr>))
     \<noteq> take 0 (drop 0 [10, 20, 30])
   \<and> hasMore (applyPagination (replicate 50 (7::nat)) (no_options\<lparr>limit := Some 0, offset := Some 0\<rparr>))
     \<noteq> ((0::int) + 0 < int (length (replicate 50 (7::nat))))"
  by (simp add: applyPagination_def or_default_def js_slice_def no_options_def)



subsection \<open>Chunk extraction\<close>

lemma concat_chunks_take:
  "0 < n \<Longrightarrow> concat (map (\<lambda>k. take n (drop (k * n) s)) [0 ..< m]) = take (m * n) s"
proof (induction m)
  case 0
  then show ?case by simp
next
  case (Suc m)
  have "Suc m * n = m * n + n" by simp
  then have "take (Suc m * n) s = take (m * n) s @ take n (drop (m * n) s)"
    by (simp only: take_add)
  with Suc show ?case by simp
qed

lemma ceil_div_bounds:
  fixes len cs :: int
  assumes "1 \<le> cs" "0 \<le> len"
  shows "0 \<le> - ((- len) div cs)" "len \<le> (- ((- len) div cs)) * cs"
        "0 < len \<Longrightarrow> (- ((- len) div cs) - 1) * cs < len"
proof -
  define q where "q = (- len) div cs"
  have pos: "0 < cs" using assms by simp
  have m: "- len = q * cs + (- len) mod cs" by (simp add: q_def)
  have r: "0 \<le> (- len) mod cs" "(- len) mod cs < cs" using pos by simp_all
  have "q * cs \<le> - len" using m r by linarith
  have "q \<le> 0"
    using assms pos unfolding q_def by (simp add: div_nonpos_pos_le0)
  then show "0 \<le> - ((- len) div cs)" by (simp add: q_def)
  show "len \<le> (- ((- len) div cs)) * cs"
    using m r by (simp add: q_def [symmetric])
  show "(- ((- len) div cs) - 1) * cs < len" if "0 < len"
  proof -
    have "(- q - 1) * cs = - (q * cs) - cs" by (simp add: algebra_simps)
    then show ?thesis using m r unfolding q_def [symmetric] by linarith
  qed
qed


lemma ceil_div_positive: "1 \<le> cs \<Longrightarrow> ceil_div len cs = Finite (- ((- len) div cs))"
  by (simp add: ceil_div_def)

lemma js_slice_chunk:
  assumes "1 \<le> cs" "0 \<le> a" "a < int (length s)"
  shows "js_slice s a (min (a + cs) (int (length s))) = take (nat cs) (drop (nat a) s)"
proof -
  have "js_slice s a (min (a + cs) (int (length s)))
          = take (nat (min (a + cs) (int (length s)) - a)) (drop (nat a) s)"
    using assms by (simp add: js_slice_def Let_def min_def)
  also have "\<dots> = take (nat cs) (drop (nat a) s)"
    using assms by (cases "a + cs \<le> int (length s)") (simp_all add: min_def)
  finally show ?thesis .
qed

lemma extractChunk_inside:
  assumes "1 \<le> cs" "0 \<le> k" "k < chunk_total v cs"
  shows "extractChunk v k cs =
           Inr \<lparr> chunk = take (nat cs) (drop (nat k * nat cs) (JSON_stringify_pretty v)),
                 chunkNumber = k,
                 totalChunks = Finite (chunk_total v cs),
                 chunkSize = int (length (take (nat cs) (drop (nat k * nat cs) (JSON_stringify_pretty v)))),
                 chunk_hasMore = (k < chunk_total v cs - 1) \<rparr>"
proof -
  define s where "s = JSON_stringify_pretty v"
  define T where "T = chunk_total v cs"
  have T: "T = - ((- int (length s)) div cs)" by (simp add: T_def chunk_total_def s_def)
  have lenpos: "0 < int (length s)"
  proof (rule ccontr)
    assume "\<not> 0 < int (length s)"
    then have "T = 0" by (simp add: T)
    with assms(2,3) show False by (simp add: T_def)
  qed
  have "(T - 1) * cs < int (length s)"
    using ceil_div_bounds(3) [OF assms(1) _ lenpos] by (simp add: T)
  moreover have "k * cs \<le> (T - 1) * cs"
    using assms by (intro mult_right_mono) (simp_all add: T_def)
  ultimately have lt: "k * cs < int (length s)" by linarith
  have ge: "0 \<le> k * cs" using assms by simp
  have sl: "js_slice s (k * cs) (min (k * cs + cs) (int (length s))) = take (nat cs) (drop (nat (k * cs)) s)"
    by (rule js_slice_chunk [OF assms(1) ge lt])
  have n: "nat (k * cs) = nat k * nat cs" using assms by (simp add: nat_mult_distrib)
  have cd: "ceil_div (int (length s)) cs = Finite T"
    using assms(1) by (simp add: ceil_div_positive T)
  show ?thesis
    unfolding extractChunk_def Let_def s_def [symmetric] cd T_def [symmetric]
    using assms(2,3) sl n by (simp add: T_def)
qed

lemma extractChunk_outside:
  assumes "1 \<le> cs" "k < 0 \<or> chunk_total v cs \<le> k"
  shows "extractChunk v k cs = Inl (range_error (chunk_total v cs - 1))"
proof -
  have cd: "ceil_div (int (length (JSON_stringify_pretty v))) cs = Finite (chunk_total v cs)"
    using assms(1) by (simp add: ceil_div_positive chunk_total_def)
  show ?thesis
    unfolding extractChunk_def Let_def cd range_error_def
    using assms(2) by auto
qed

lemma chunks_cover:
  assumes "1 \<le> cs"
  shows "concat (map (\<lambda>k. chunk_or_empty (extractChunk v (int k) cs)) [0 ..< nat (chunk_total v cs)])
           = JSON_stringify_pretty v"
proof -
  define s where "s = JSON_stringify_pretty v"
  define T where "T = chunk_total v cs"
  have T: "T = - ((- int (length s)) div cs)" by (simp add: T_def chunk_total_def s_def)
  have each: "chunk_or_empty (extractChunk v (int k) cs) = take (nat cs) (drop (k * nat cs) s)"
    if "k \<in> set [0 ..< nat T]" for k
  proof -
    from that have "0 \<le> int k" "int k < chunk_total v cs" by (simp_all add: T_def)
    from extractChunk_inside [OF assms this] show ?thesis
      by (simp add: chunk_or_empty_def s_def)
  qed
  have "concat (map (\<lambda>k. chunk_or_empty (extractChunk v (int k) cs)) [0 ..< nat T])
          = concat (map (\<lambda>k. take (nat cs) (drop (k * nat cs) s)) [0 ..< nat T])"
    using each by (intro arg_cong [where f = concat] map_cong) simp_all
  also have "\<dots> = take (nat T * nat cs) s"
    using assms by (intro concat_chunks_take) simp
  also have "\<dots> = s"
  proof -
    have "int (length s) \<le> T * cs"
      using ceil_div_bounds(2) [OF assms, of "int (length s)"] by (simp add: T)
    moreover have "0 \<le> T" using ceil_div_bounds(1) [OF assms, of "int (length s)"] by (simp add: T)
    ultimately have "length s \<le> nat T * nat cs"
      using assms by (metis nat_int nat_mono nat_mult_distrib)
    then show ?thesis by simp
  qed
  finally show ?thesis by (simp add: T_def s_def)
qed

text \<open>
  C3: for a chunk size of at least one, the chunks \<open>0\<close> to \<open>totalChunks - 1\<close> of a value,
  concatenated in order, are its indented serialization; each of these calls succeeds,
  returns its slice of the serialization and reports the same \<open>totalChunks\<close>; the call
  with the chunk number \<open>totalChunks\<close> and every call with a negative chunk number fail
  with the range error.
\<close>

theorem extractChunk_roundtrip:
  assumes "1 \<le> cs"
  shows "concat (map (\<lambda>k. chunk_or_empty (extractChunk v (int k) cs)) [0 ..< nat (chunk_total v cs)])
           = JSON_stringify_pretty v
         \<and> (\<forall>k. 0 \<le> k \<and> k < chunk_total v cs \<longrightarrow>
               (\<exists>r. extractChunk v k cs = Inr r
                  \<and> chunk r = take (nat cs) (drop (nat k * nat cs) (JSON_stringify_pretty v))
                  \<and> totalChunks r = Finite (chunk_total v cs)))
         \<and> extractChunk v (chunk_total v cs) cs = Inl (range_error (chunk_total v cs - 1))
         \<and> (\<forall>k. k < 0 \<longrightarrow> extractChunk v k cs = Inl (range_error (chunk_total v cs - 1)))"
  using chunks_cover [OF assms, of v] extractChunk_inside [OF assms, of _ v]
    extractChunk_outside [OF assms, of _ v]
  by simp

lemma sample_total: "chunk_total sample_value 5 = 3"
  by (simp add: chunk_total_def sample_value_def JSON_stringify_pretty_def line_break_def ustr_def
        show_int_def show_nat.simps digit_char_def)

theorem extractChunk_roundtrip_witness:
  "(1::int) \<le> 5
   \<and> concat (map (\<lambda>k. chunk_or_empty (extractChunk sample_value (int k) 5)) [0 ..< 3])
       = JSON_stringify_pretty sample_value
   \<and> (\<exists>r. extractChunk sample_value 2 5 = Inr r
          \<and> chunk r = take 5 (drop 10 (JSON_stringify_pretty sample_value))
          \<and> totalChunks r = Finite 3)
   \<and> extractChunk sample_value 3 5 = Inl (range_error 2)
   \<and> extractChunk sample_value (- 1) 5 = Inl (range_error 2)"
proof -
  have h: "(1::int) \<le> 5" by simp
  have n: "[0 ..< nat 3] = [0 ..< 3]" by simp
  note t = extractChunk_roundtrip [OF h, of sample_value, unfolded sample_total n]
  from t have inside: "0 \<le> k \<and> k < 3 \<longrightarrow>
               (\<exists>r. extractChunk sample_value k 5 = Inr r
                  \<and> chunk r = take (nat 5) (drop (nat k * nat 5) (JSON_stringify_pretty sample_value))
                  \<and> totalChunks r = Finite 3)" for k
    by blast
  from t have outside: "k < 0 \<longrightarrow> extractChunk sample_value k 5 = Inl (range_error (3 - 1))" for k
    by blast
  from inside [of 2] have two: "\<exists>r. extractChunk sample_value 2 5 = Inr r
          \<and> chunk r = take 5 (drop 10 (JSON_stringify_pretty sample_value))
          \<and> totalChunks r = Finite 3"
    by simp
  from outside [of "- 1"] have neg: "extractChunk sample_value (- 1) 5 = Inl (range_error 2)"
    by simp
  from t two neg show ?thesis by simp
qed

section \<open>Properties of the cache manager\<close>

lemma save_id: "fst (save ttl' files random now t d c) = generateId random"
  by (simp add: save_def Let_def)


lemma save_meta:
  "meta_files (snd (save ttl' files random now t d c)) =
     (meta_files files)(generateId random \<mapsto>
        \<lparr> id' = generateId random, tool = t, sizeBytes = byteLength (JSON_stringify d),
          createdAt = now, expiresAt = now + ttl' * 1000, client = c,
          chunks = ceil_div (int (length (JSON_stringify d))) 10000, indexed = False \<rparr>)"
  by (simp add: save_def Let_def)



text \<open>
  C5, amended: the chunk count that \<open>save\<close> records is the length of
  \<open>JSON.stringify(data)\<close> divided by the constant 10000, rounded up, whatever chunk size
  is configured; it is the quotient by the configured chunk size when
  \<open>MCP_CACHE_CHUNK_SIZE\<close> is not set, because the default chunk size is 10000.
\<close>

theorem save_chunk_count:
  "map_option chunks
     (getMetadata (snd (save ttl' files random now t d c)) (fst (save ttl' files random now t d c)))
     = Some (ceil_div (int (length (JSON_stringify d))) 10000)
   \<and> (MCP_CACHE_CHUNK_SIZE env = None \<longrightarrow>
        map_option chunks
          (getMetadata (snd (save ttl' files random now t d c)) (fst (save ttl' files random now t d c)))
        = Some (ceil_div (int (length (JSON_stringify d))) (chunkSize (loadConfig info env))))"
  by (simp add: getMetadata_def save_id save_meta loadConfig_def DEFAULT_CONFIG_def Let_def
        split: option.splits)

theorem save_chunk_count_witness:
  "map_option chunks
     (getMetadata (snd (save 3600 no_files [1, 2, 3, 4, 5, 6] 0 (ustr ''dom'') JNull (ustr ''claude-ai'')))
        (fst (save 3600 no_files [1, 2, 3, 4, 5, 6] 0 (ustr ''dom'') JNull (ustr ''claude-ai''))))
     = Some (Finite 1)
   \<and> MCP_CACHE_CHUNK_SIZE no_environment = None
   \<and> ceil_div (int (length (JSON_stringify JNull))) (chunkSize (loadConfig None no_environment)) = Finite 1"
proof -
  have l: "int (length (JSON_stringify JNull)) = 4"
    by (simp add: JSON_stringify_def ustr_def)
  have n: "MCP_CACHE_CHUNK_SIZE no_environment = None" by (simp add: no_environment_def)
  from save_chunk_count [of 3600 no_files "[1, 2, 3, 4, 5, 6]" 0 "ustr ''dom''" JNull "ustr ''claude-ai''"
      no_environment None] n
  show ?thesis unfolding l
    by (simp add: ceil_div_def loadConfig_def DEFAULT_CONFIG_def no_environment_def)
qed

text \<open>
  C5, as the specification states it, fails: with \<open>MCP_CACHE_CHUNK_SIZE\<close> set to one, the
  payload \<open>null\<close>, of serialized length four, is recorded with one chunk and not four.
\<close>

theorem save_chunk_count_counterexample:
  "map_option chunks
     (getMetadata (snd (save 3600 no_files [1, 2, 3, 4, 5, 6] 0 (ustr ''dom'') JNull (ustr ''claude-ai'')))
        (fst (save 3600 no_files [1, 2, 3, 4, 5, 6] 0 (ustr ''dom'') JNull (ustr ''claude-ai''))))
     \<noteq> Some (ceil_div (int (length (JSON_stringify JNull)))
              (chunkSize (loadConfig None (no_environment\<lparr>MCP_CACHE_CHUNK_SIZE := Some 1\<rparr>))))"
  by (simp add: getMetadata_def save_id save_meta loadConfig_def DEFAULT_CONFIG_def Let_def
        no_environment_def JSON_stringify_def ustr_def ceil_div_def)

text \<open>
  C8 at the failing input: when the metadata file of an id exists and its payload file
  does not, the first \<open>unlink\<close> throws, \<open>delete\<close> returns false without reaching the
  second \<open>unlink\<close>, and the metadata record remains.
\<close>

theorem delete_orphan_metadata:
  "delete orphan_metadata (ustr ''resp_0a0b0c0d0e0f'') = (False, orphan_metadata)
   \<and> getMetadata (snd (delete orphan_metadata (ustr ''resp_0a0b0c0d0e0f''))) (ustr ''resp_0a0b0c0d0e0f'')
       = Some (sample_metadata (ustr ''resp_0a0b0c0d0e0f'') 1000)"
  by (simp add: delete_def orphan_metadata_def getMetadata_def)

text \<open>
  C7 at the failing input: the metadata of the id has expired and its payload file does
  not exist; \<open>get\<close> reports the id absent, and the call of \<open>delete\<close> inside it leaves
  the metadata record where it is.
\<close>

theorem get_expired_orphan_metadata:
  "expiresAt (sample_metadata (ustr ''resp_0a0b0c0d0e0f'') 1000) < 2000
   \<and> get orphan_metadata 2000 (ustr ''resp_0a0b0c0d0e0f'') = (JNull, orphan_metadata)
   \<and> getMetadata (snd (get orphan_metadata 2000 (ustr ''resp_0a0b0c0d0e0f''))) (ustr ''resp_0a0b0c0d0e0f'')
       = Some (sample_metadata (ustr ''resp_0a0b0c0d0e0f'') 1000)"
  by (simp add: get_def delete_def orphan_metadata_def getMetadata_def sample_metadata_def)

text \<open>
  What \<open>delete\<close> does in each of the four states of the two files of an id, and what \<open>get\<close>
  does when both files exist, when neither exists, and when the entry has not expired.
\<close>

lemma delete_cases:
  "delete files ident =
     (case (data_files files ident, meta_files files ident) of
        (None, _) \<Rightarrow> (False, files)
      | (Some d, None) \<Rightarrow> (False, files\<lparr>data_files := (data_files files)(ident := None)\<rparr>)
      | (Some d, Some m) \<Rightarrow>
          (True, files\<lparr>data_files := (data_files files)(ident := None),
                       meta_files := (meta_files files)(ident := None)\<rparr>))"
  by (simp add: delete_def split: option.splits)

lemma delete_removes_payload: "data_files (snd (delete files ident)) ident = None"
  by (simp add: delete_cases split: option.splits)

lemma delete_true_iff:
  "fst (delete files ident) \<longleftrightarrow> data_files files ident \<noteq> None \<and> meta_files files ident \<noteq> None"
  by (auto simp: delete_cases split: option.splits)

lemma delete_metadata_left:
  "meta_files (snd (delete files ident)) ident =
     (if data_files files ident = None then meta_files files ident else None)"
  by (simp add: delete_cases split: option.splits)

lemma get_expired_with_payload:
  assumes "meta_files files ident = Some m" "expiresAt m < now" "data_files files ident = Some d"
  shows "fst (get files now ident) = JNull"
    "data_files (snd (get files now ident)) ident = None"
    "meta_files (snd (get files now ident)) ident = None"
  using assms by (simp_all add: get_def getMetadata_def delete_cases)

lemma get_absent:
  assumes "data_files files ident = None" "meta_files files ident = None"
  shows "get files now ident = (JNull, files)"
  using assms by (simp add: get_def getMetadata_def)

lemma get_unexpired:
  assumes "meta_files files ident = Some m" "\<not> expiresAt m < now" "data_files files ident = Some d"
  shows "get files now ident = (d, files)"
  using assms by (simp add: get_def getMetadata_def)

section \<open>Properties of the transport\<close>

lemma settle_simps [simp]:
  "nextId (settle i r t) = nextId t"
  "messageHandlers (settle i r t) = messageHandlers t"
  "timers (settle i r t) = timers t"
  "settled (settle i r t) j = (if j = i \<and> settled t i = None then Some r else settled t j)"
  by (auto simp: settle_def split: option.splits)

lemma response_handler_simps [simp]:
  "nextId (response_handler i msg t) = nextId t"
  "messageHandlers (response_handler i msg t) = messageHandlers t"
  "timers (response_handler i msg t) = timers t"
  "j \<noteq> i \<Longrightarrow> settled (response_handler i msg t) j = settled t j"
  "settled t i \<noteq> None \<Longrightarrow> settled (response_handler i msg t) i = settled t i"
  by (auto simp: response_handler_def split: option.splits)

lemma response_handler_settles:
  "settled t i = None \<Longrightarrow> settled (response_handler i msg t) i \<noteq> None"
  by (auto simp: response_handler_def split: option.splits)

lemma handleMessage_response:
  "js_prop msg (ustr ''id'') = Some (JNum i) \<Longrightarrow>
     handleMessage msg t =
       (if i \<in> messageHandlers t
        then (response_handler i msg t)
               \<lparr>messageHandlers := messageHandlers (response_handler i msg t) - {i}\<rparr>
        else t)"
  by (simp add: handleMessage_def Let_def)

lemma handleMessage_other_id:
  "js_prop msg (ustr ''id'') = Some v \<Longrightarrow> \<forall>i. v \<noteq> JNum i \<Longrightarrow> handleMessage msg t = t"
  by (cases v) (simp_all add: handleMessage_def)

lemma handleMessage_no_id:
  "js_prop msg (ustr ''id'') = None \<Longrightarrow>
     handleMessage msg t = t \<or>
     handleMessage msg t =
       t\<lparr>delivered := delivered t @ map (\<lambda>h. (h, msg)) [0 ..< notificationHandlers t]\<rparr>"
  by (simp add: handleMessage_def split: option.splits)

lemma handleMessage_cases:
  obtains (response) i where "js_prop msg (ustr ''id'') = Some (JNum i)" "i \<in> messageHandlers t"
      "handleMessage msg t = (response_handler i msg t)
               \<lparr>messageHandlers := messageHandlers (response_handler i msg t) - {i}\<rparr>"
  | (dropped) "handleMessage msg t = t"
  | (notification) "js_prop msg (ustr ''id'') = None"
      "handleMessage msg t =
         t\<lparr>delivered := delivered t @ map (\<lambda>h. (h, msg)) [0 ..< notificationHandlers t]\<rparr>"
proof (cases "js_prop msg (ustr ''id'')")
  case None
  with handleMessage_no_id [OF None, of t] dropped notification show ?thesis by blast
next
  case (Some v)
  show ?thesis
  proof (cases "\<exists>i. v = JNum i")
    case True
    then obtain i where "v = JNum i" by blast
    with Some handleMessage_response [of msg i t] response dropped show ?thesis
      by (cases "i \<in> messageHandlers t") simp_all
  next
    case False
    with Some handleMessage_other_id [of msg v t] dropped show ?thesis by blast
  qed
qed

lemma handleMessage_simps [simp]:
  "nextId (handleMessage msg t) = nextId t"
  "timers (handleMessage msg t) = timers t"
  by (cases msg t rule: handleMessage_cases; simp)+

lemma handleMessage_handlers:
  "messageHandlers (handleMessage msg t) \<subseteq> messageHandlers t"
  by (cases msg t rule: handleMessage_cases) auto

lemma handleMessage_other:
  assumes "js_prop msg (ustr ''id'') \<noteq> Some (JNum i)"
  shows "settled (handleMessage msg t) i = settled t i"
    "i \<in> messageHandlers (handleMessage msg t) \<longleftrightarrow> i \<in> messageHandlers t"
  using assms by (cases msg t rule: handleMessage_cases; auto)+

lemma handleMessage_settled_stable:
  "settled t i \<noteq> None \<Longrightarrow> settled (handleMessage msg t) i = settled t i"
proof (cases msg t rule: handleMessage_cases)
  case (response j)
  assume "settled t i \<noteq> None"
  then show ?thesis using response(3) by (cases "i = j") simp_all
qed simp_all

lemma handleMessage_dropped:
  "js_prop msg (ustr ''id'') = Some (JNum i) \<Longrightarrow> i \<notin> messageHandlers t \<Longrightarrow> handleMessage msg t = t"
  by (simp add: handleMessage_def)

lemma timeout_callback_simps [simp]:
  "nextId (timeout_callback j t) = nextId t"
  "timers (timeout_callback j t) = timers t"
  "messageHandlers (timeout_callback j t) = messageHandlers t - {j}"
  by (auto simp: timeout_callback_def)

lemma timeout_callback_settled:
  "settled (timeout_callback j t) i =
     (if i = j \<and> j \<in> messageHandlers t \<and> settled t j = None
      then Some (Rejected (Error (ustr ''Request timeout''))) else settled t i)"
  by (auto simp: timeout_callback_def)


lemma sendRequest_simps [simp]:
  "fst (sendRequest now m p t) = nextId t"
  "nextId (snd (sendRequest now m p t)) = nextId t + 1"
  "messageHandlers (snd (sendRequest now m p t)) = insert (nextId t) (messageHandlers t)"
  "settled (snd (sendRequest now m p t)) = settled t"
  "timers (snd (sendRequest now m p t)) = timers t @ [(now + 30000, nextId t)]"
  by (simp_all add: sendRequest_def Let_def)

lemma fold_timeout_simps [simp]:
  "nextId (fold (\<lambda>(at, j). timeout_callback j) due t) = nextId t"
  "timers (fold (\<lambda>(at, j). timeout_callback j) due t) = timers t"
  "messageHandlers (fold (\<lambda>(at, j). timeout_callback j) due t) = messageHandlers t - snd ` set due"
  by (induction due arbitrary: t; auto)+

lemma fold_timeout_other:
  "i \<notin> snd ` set due \<Longrightarrow> settled (fold (\<lambda>(at, j). timeout_callback j) due t) i = settled t i"
  by (induction due arbitrary: t) (auto simp: timeout_callback_settled)

lemma fold_timeout_stable:
  "settled t i \<noteq> None \<or> i \<notin> messageHandlers t \<Longrightarrow>
     settled (fold (\<lambda>(at, j). timeout_callback j) due t) i = settled t i"
proof (induction due arbitrary: t)
  case Nil
  then show ?case by simp
next
  case (Cons d due)
  obtain at j where d: "d = (at, j)" by (cases d)
  have "settled (timeout_callback j t) i = settled t i"
    using Cons.prems by (auto simp: timeout_callback_settled)
  moreover have "settled (timeout_callback j t) i \<noteq> None \<or> i \<notin> messageHandlers (timeout_callback j t)"
    using Cons.prems by (auto simp: timeout_callback_settled)
  ultimately show ?case using Cons.IH [of "timeout_callback j t"] by (simp add: d)
qed

lemma fold_timeout_fires:
  assumes "i \<in> snd ` set due" "i \<in> messageHandlers t" "settled t i = None"
  shows "settled (fold (\<lambda>(at, j). timeout_callback j) due t) i
           = Some (Rejected (Error (ustr ''Request timeout'')))"
  using assms
proof (induction due arbitrary: t)
  case Nil
  then show ?case by simp
next
  case (Cons d due)
  obtain at j where d: "d = (at, j)" by (cases d)
  show ?case
  proof (cases "j = i")
    case True
    have s: "settled (timeout_callback i t) i = Some (Rejected (Error (ustr ''Request timeout'')))"
      using Cons.prems by (simp add: timeout_callback_settled)
    then have "settled (fold (\<lambda>(at, j). timeout_callback j) due (timeout_callback i t)) i
                 = settled (timeout_callback i t) i"
      by (intro fold_timeout_stable) simp
    with s show ?thesis by (simp add: d True)
  next
    case False
    with Cons.prems have "i \<in> snd ` set due" by (auto simp: d)
    moreover have "i \<in> messageHandlers (timeout_callback j t)" using False Cons.prems by simp
    moreover have "settled (timeout_callback j t) i = None"
      using False Cons.prems by (simp add: timeout_callback_settled)
    ultimately show ?thesis using Cons.IH [of "timeout_callback j t"] by (simp add: d)
  qed
qed

lemma run_timers_simps [simp]:
  "nextId (run_timers now t) = nextId t"
  "timers (run_timers now t) = filter (\<lambda>(at, j). \<not> at \<le> now) (timers t)"
  "messageHandlers (run_timers now t)
     = messageHandlers t - snd ` set (filter (\<lambda>(at, j). at \<le> now) (timers t))"
  by (simp_all add: run_timers_def Let_def)

lemma run_timers_stable:
  "settled t i \<noteq> None \<or> i \<notin> messageHandlers t \<Longrightarrow> settled (run_timers now t) i = settled t i"
  using fold_timeout_stable [of "t\<lparr>timers := filter (\<lambda>(at, j). \<not> at \<le> now) (timers t)\<rparr>" i]
  by (simp add: run_timers_def Let_def)

lemma run_timers_other:
  "i \<notin> snd ` set (filter (\<lambda>(at, j). at \<le> now) (timers t)) \<Longrightarrow>
     settled (run_timers now t) i = settled t i"
  using fold_timeout_other [of i "filter (\<lambda>(at, j). at \<le> now) (timers t)"]
  by (simp add: run_timers_def Let_def)

lemma run_timers_fires:
  assumes "pending i due t" "due \<le> now"
  shows "settled (run_timers now t) i = Some (Rejected (Error (ustr ''Request timeout'')))"
    "i \<notin> messageHandlers (run_timers now t)"
proof -
  from assms have m: "i \<in> snd ` set (filter (\<lambda>(at, j). at \<le> now) (timers t))"
    by (force simp: pending_def)
  from assms(1) have "i \<in> messageHandlers (t\<lparr>timers := filter (\<lambda>(at, j). \<not> at \<le> now) (timers t)\<rparr>)"
    "settled (t\<lparr>timers := filter (\<lambda>(at, j). \<not> at \<le> now) (timers t)\<rparr>) i = None"
    by (simp_all add: pending_def)
  from fold_timeout_fires [OF m this]
  show "settled (run_timers now t) i = Some (Rejected (Error (ustr ''Request timeout'')))"
    by (simp add: run_timers_def Let_def)
  from m show "i \<notin> messageHandlers (run_timers now t)" by simp
qed

lemma pending_step:
  assumes "pending i due t" "\<not> answers i e" "\<not> fires due e"
  shows "pending i due (step t e)"
proof (cases e)
  case (Request now m p)
  with assms(1) show ?thesis by (auto simp: pending_def)
next
  case (Line msg)
  with assms(2) have "js_prop msg (ustr ''id'') \<noteq> Some (JNum i)" by simp
  from handleMessage_other [OF this, of t] assms(1) show ?thesis
    by (simp add: pending_def Line)
next
  case (Timers now)
  with assms(3) have lt: "now < due" by simp
  with assms(1) have n: "i \<notin> snd ` set (filter (\<lambda>(at, j). at \<le> now) (timers t))"
    by (fastforce simp: pending_def)
  from run_timers_other [OF n] assms(1) lt n show ?thesis
    by (auto simp: pending_def Timers)
qed

lemma pending_run:
  assumes "pending i due t" "undisturbed i due es"
  shows "pending i due (run es t)"
  using assms unfolding run_def undisturbed_def
  by (induction es arbitrary: t) (simp_all add: pending_step)

lemma consistent_step: "consistent t \<Longrightarrow> consistent (step t e)"
proof (cases e)
  case (Request now m p)
  assume "consistent t"
  then show ?thesis unfolding consistent_def Request by (auto; fastforce)
next
  case (Line msg)
  assume c: "consistent t"
  show ?thesis
  proof (cases msg t rule: handleMessage_cases)
    case (response j)
    have "settled (response_handler j msg t) k = settled t k" if "k \<noteq> j" for k
      using that by simp
    moreover have "j < nextId t" using c response(2) by (simp add: consistent_def)
    ultimately show ?thesis using c unfolding consistent_def Line step.simps response(3)
      by (auto; metis)
  next
    case dropped
    with c show ?thesis by (simp add: Line)
  next
    case notification
    with c show ?thesis by (simp add: Line consistent_def)
  qed
next
  case (Timers now)
  assume c: "consistent t"
  have s: "settled (run_timers now t) k \<noteq> None \<Longrightarrow> k < nextId t" for k
  proof (cases "settled t k \<noteq> None \<or> k \<notin> messageHandlers t")
    case True
    assume "settled (run_timers now t) k \<noteq> None"
    with run_timers_stable [OF True, of now] c True show ?thesis
      by (auto simp: consistent_def)
  next
    case False
    with c show ?thesis by (simp add: consistent_def)
  qed
  have h: "settled (run_timers now t) k = None" if "k \<in> messageHandlers (run_timers now t)" for k
  proof -
    from that have "k \<in> messageHandlers t" "k \<notin> snd ` set (filter (\<lambda>(at, j). at \<le> now) (timers t))"
      by simp_all
    with run_timers_other [of k now t] c show ?thesis by (simp add: consistent_def)
  qed
  show ?thesis unfolding consistent_def Timers step.simps
    using c s h by (auto simp: consistent_def)
qed

lemma consistent_new: "consistent new_transport"
  by (simp add: consistent_def new_transport_def)

lemma consistent_run: "consistent t \<Longrightarrow> consistent (run es t)"
  unfolding run_def by (induction es arbitrary: t) (simp_all add: consistent_step)

lemma pending_sendRequest:
  assumes "consistent t"
  shows "pending (nextId t) (now + 30000) (snd (sendRequest now m p t))"
  using assms unfolding consistent_def pending_def by (auto; fastforce)

lemma settled_step_stable: "settled t i \<noteq> None \<Longrightarrow> settled (step t e) i = settled t i"
  by (cases e) (simp_all add: handleMessage_settled_stable run_timers_stable)

lemma settled_run_stable: "settled t i \<noteq> None \<Longrightarrow> settled (run es t) i = settled t i"
  unfolding run_def
proof (induction es arbitrary: t)
  case Nil
  then show ?case by simp
next
  case (Cons e es)
  from settled_step_stable [OF Cons.prems, of e] Cons.prems Cons.IH [of "step t e"]
  show ?case by simp
qed

lemma nextId_step: "nextId t \<le> nextId (step t e)"
  by (cases e) simp_all

lemma nextId_run: "nextId t \<le> nextId (run es t)"
  unfolding run_def
proof (induction es arbitrary: t)
  case Nil
  then show ?case by simp
next
  case (Cons e es)
  from nextId_step [of t e] Cons [of "step t e"] show ?case by simp
qed


lemma handleMessage_pending:
  assumes "js_prop msg (ustr ''id'') = Some (JNum i)" "i \<in> messageHandlers t" "settled t i = None"
  shows "settled (handleMessage msg t) i =
           Some (case js_prop msg (ustr ''error'') of
                   None \<Rightarrow> Resolved (js_prop msg (ustr ''result''))
                 | Some e \<Rightarrow>
                     if truthy e
                     then Rejected (Error (case js_prop e (ustr ''message'') of
                                             None \<Rightarrow> ustr ''Unknown error''
                                           | Some v \<Rightarrow> if truthy v then to_text v
                                                       else ustr ''Unknown error''))
                     else Resolved (js_prop msg (ustr ''result'')))"
    "i \<notin> messageHandlers (handleMessage msg t)"
  using assms
  by (simp_all add: handleMessage_response response_handler_def split: option.splits)

text \<open>
  C9, amended. Let a transport, in any state it can reach, run \<open>sendRequest\<close> at the
  clock reading \<open>now\<close>, and let events follow that neither answer this request nor run the
  timers at or after \<open>now + 30000\<close>. Then: the id is the value of the counter, which the
  call increments and which never decreases, so that later ids are larger; the request
  is waiting, its timer due at \<open>now + 30000\<close>. A response with this id settles it and
  removes the pending record: it fails with the text of the remote message when the
  response carries a truthy \<open>error\<close> whose \<open>message\<close> is truthy, it fails with
  \<open>Unknown error\<close> when that \<open>message\<close> is missing or falsy (an empty text), and it
  resolves with the \<open>result\<close> field when the response has no \<open>error\<close> or a falsy one.
  If instead the timer phase runs at or after \<open>now + 30000\<close>, the request fails with
  \<open>Request timeout\<close> and the pending record is removed; a response with this id that
  arrives afterwards changes nothing at all, and nothing that happens later changes the
  outcome.
\<close>

theorem request_lifecycle:
  assumes "t = run earlier new_transport"
    and "(i, t1) = sendRequest now method params t"
    and "undisturbed i (now + 30000) events"
    and "t2 = run events t1"
    and "js_prop msg (ustr ''id'') = Some (JNum i)"
    and "now + 30000 \<le> late"
    and "t3 = run_timers late t2"
  shows "i = nextId t \<and> nextId t1 = i + 1 \<and> i < nextId t2
         \<and> (now + 30000, i) \<in> set (timers t1)
         \<and> i \<in> messageHandlers t2 \<and> settled t2 i = None
         \<and> (\<forall>e v. js_prop msg (ustr ''error'') = Some e \<and> truthy e
                   \<and> js_prop e (ustr ''message'') = Some v \<and> truthy v
                \<longrightarrow> settled (handleMessage msg t2) i = Some (Rejected (Error (to_text v))))
         \<and> (\<forall>e. js_prop msg (ustr ''error'') = Some e \<and> truthy e
                   \<and> (case js_prop e (ustr ''message'') of None \<Rightarrow> True | Some v \<Rightarrow> \<not> truthy v)
                \<longrightarrow> settled (handleMessage msg t2) i
                      = Some (Rejected (Error (ustr ''Unknown error''))))
         \<and> ((case js_prop msg (ustr ''error'') of None \<Rightarrow> True | Some e \<Rightarrow> \<not> truthy e)
                \<longrightarrow> settled (handleMessage msg t2) i = Some (Resolved (js_prop msg (ustr ''result''))))
         \<and> i \<notin> messageHandlers (handleMessage msg t2)
         \<and> settled t3 i = Some (Rejected (Error (ustr ''Request timeout'')))
         \<and> i \<notin> messageHandlers t3
         \<and> handleMessage msg t3 = t3
         \<and> (\<forall>later. settled (run later t3) i = Some (Rejected (Error (ustr ''Request timeout''))))"
proof -
  have c: "consistent t" using assms(1) consistent_new consistent_run by simp
  have i: "i = nextId t" and t1: "t1 = snd (sendRequest now method params t)"
    using assms(2) by (simp_all add: prod_eq_iff)
  have p1: "pending i (now + 30000) t1"
    unfolding i t1 by (rule pending_sendRequest [OF c])
  have p2: "pending i (now + 30000) t2"
    unfolding assms(4) by (rule pending_run [OF p1 assms(3)])
  have h2: "i \<in> messageHandlers t2" "settled t2 i = None" "i < nextId t2"
    using p2 by (simp_all add: pending_def)
  note hm = handleMessage_pending [OF assms(5) h2(1,2)]
  have fired: "settled t3 i = Some (Rejected (Error (ustr ''Request timeout'')))"
    "i \<notin> messageHandlers t3"
    unfolding assms(7) by (rule run_timers_fires [OF p2 assms(6)])+
  have stable: "settled (run later t3) i = Some (Rejected (Error (ustr ''Request timeout'')))" for later
    using settled_run_stable [of t3 i later] fired(1) by simp
  have dropped: "handleMessage msg t3 = t3"
    by (rule handleMessage_dropped [OF assms(5) fired(2)])
  have a: "i = nextId t \<and> nextId t1 = i + 1 \<and> i < nextId t2
         \<and> (now + 30000, i) \<in> set (timers t1)
         \<and> i \<in> messageHandlers t2 \<and> settled t2 i = None"
    using i h2 p1 by (simp add: t1 pending_def)
  have b: "\<forall>e v. js_prop msg (ustr ''error'') = Some e \<and> truthy e
                   \<and> js_prop e (ustr ''message'') = Some v \<and> truthy v
                \<longrightarrow> settled (handleMessage msg t2) i = Some (Rejected (Error (to_text v)))"
    using hm(1) by simp
  have b2: "\<forall>e. js_prop msg (ustr ''error'') = Some e \<and> truthy e
                   \<and> (case js_prop e (ustr ''message'') of None \<Rightarrow> True | Some v \<Rightarrow> \<not> truthy v)
                \<longrightarrow> settled (handleMessage msg t2) i
                      = Some (Rejected (Error (ustr ''Unknown error'')))"
    using hm(1) by (auto split: option.splits)
  have b3: "(case js_prop msg (ustr ''error'') of None \<Rightarrow> True | Some e \<Rightarrow> \<not> truthy e)
                \<longrightarrow> settled (handleMessage msg t2) i = Some (Resolved (js_prop msg (ustr ''result'')))"
    using hm(1) by (auto split: option.splits)
  from a b b2 b3 hm(2) fired dropped stable show ?thesis by blast
qed

text \<open>
  C9, as the specification states it, fails: a response whose \<open>error\<close> carries the empty
  message does not fail the request with that message (it fails with \<open>Unknown error\<close>),
  and a response that carries \<open>"error": null\<close> beside its result does not fail the request.
\<close>

theorem remote_error_message_counterexample:
  "settled (handleMessage (error_with_message [])
              (snd (sendRequest 0 (ustr ''tools/call'') None new_transport))) 1
     \<noteq> Some (Rejected (Error []))
   \<and> settled (handleMessage null_error
                (snd (sendRequest 0 (ustr ''tools/call'') None new_transport))) 1
     = Some (Resolved (Some (JStr (ustr ''ok''))))"
proof -
  have i: "js_prop (error_with_message []) (ustr ''id'') = Some (JNum 1)"
    "js_prop null_error (ustr ''id'') = Some (JNum 1)"
    by (simp_all add: error_with_message_def null_error_def response_line_def ustr_def)
  have h: "1 \<in> messageHandlers (snd (sendRequest 0 (ustr ''tools/call'') None new_transport))"
    "settled (snd (sendRequest 0 (ustr ''tools/call'') None new_transport)) 1 = None"
    by (simp_all add: new_transport_def)
  show ?thesis
    unfolding handleMessage_pending(1) [OF i(1) h] handleMessage_pending(1) [OF i(2) h]
    by (simp add: error_with_message_def null_error_def response_line_def ustr_def)
qed


theorem request_lifecycle_witness:
  "undisturbed 1 (0 + 30000) quiet_events
   \<and> js_prop (error_with_message (ustr ''boom'')) (ustr ''id'') = Some (JNum 1)
   \<and> (0::int) + 30000 \<le> 30000
   \<and> nextId (run [] new_transport) = 1
   \<and> 1 < nextId (run quiet_events (snd (sendRequest 0 (ustr ''tools/call'') None (run [] new_transport))))
   \<and> settled (handleMessage (error_with_message (ustr ''boom''))
                (run quiet_events (snd (sendRequest 0 (ustr ''tools/call'') None (run [] new_transport))))) 1
       = Some (Rejected (Error (ustr ''boom'')))
   \<and> settled (run_timers 30000
                (run quiet_events (snd (sendRequest 0 (ustr ''tools/call'') None (run [] new_transport))))) 1
       = Some (Rejected (Error (ustr ''Request timeout'')))
   \<and> handleMessage (error_with_message (ustr ''boom''))
         (run_timers 30000
            (run quiet_events (snd (sendRequest 0 (ustr ''tools/call'') None (run [] new_transport)))))
       = run_timers 30000
            (run quiet_events (snd (sendRequest 0 (ustr ''tools/call'') None (run [] new_transport))))"
proof -
  have n: "nextId (run [] new_transport) = 1"
    by (simp add: run_def new_transport_def)
  have h2: "(1, snd (sendRequest 0 (ustr ''tools/call'') None (run [] new_transport)))
              = sendRequest 0 (ustr ''tools/call'') None (run [] new_transport)"
    by (simp add: prod_eq_iff n)
  have h3: "undisturbed 1 (0 + 30000) quiet_events"
    by (simp add: undisturbed_def quiet_events_def response_line_def ustr_def)
  have h5: "js_prop (error_with_message (ustr ''boom'')) (ustr ''id'') = Some (JNum 1)"
    by (simp add: error_with_message_def response_line_def ustr_def)
  have h6: "(0::int) + 30000 \<le> 30000" by simp
  have e: "js_prop (error_with_message (ustr ''boom'')) (ustr ''error'')
             = Some (JObj [(ustr ''code'', JNum (- 32000)), (ustr ''message'', JStr (ustr ''boom''))])"
    "truthy (JObj [(ustr ''code'', JNum (- 32000)), (ustr ''message'', JStr (ustr ''boom''))])"
    "js_prop (JObj [(ustr ''code'', JNum (- 32000)), (ustr ''message'', JStr (ustr ''boom''))]) (ustr ''message'')
             = Some (JStr (ustr ''boom''))"
    "truthy (JStr (ustr ''boom''))"
    by (simp_all add: error_with_message_def response_line_def ustr_def)
  note t = request_lifecycle [OF refl h2 h3 refl h5 h6 refl]
  from t e have "settled (handleMessage (error_with_message (ustr ''boom''))
                (run quiet_events (snd (sendRequest 0 (ustr ''tools/call'') None (run [] new_transport))))) 1
       = Some (Rejected (Error (to_text (JStr (ustr ''boom'')))))"
    by blast
  with t h3 h5 n show ?thesis by simp
qed

section \<open>Properties of the proxy\<close>



end
